theory Spec2Isabelle
  imports Main "HOL-Library.Multiset"
begin

section \<open>Time\<close>

text \<open>
  A naive UTC \<^verbatim>\<open>datetime\<close> is the number of microseconds since the epoch (the
  resolution of Python's \<^verbatim>\<open>datetime\<close>); a \<^verbatim>\<open>timedelta\<close> is a number of
  microseconds; a \<^verbatim>\<open>date\<close> is a day number.
\<close>

type_synonym timestamp = int

definition timedelta_minutes :: "int \<Rightarrow> int" where
  "timedelta_minutes n = n * 60000000"

definition timedelta_hours :: "int \<Rightarrow> int" where
  "timedelta_hours n = n * 3600000000"

definition timedelta_days :: "int \<Rightarrow> int" where
  "timedelta_days n = n * 86400000000"

definition date_of :: "timestamp \<Rightarrow> int" where
  \<comment> \<open>\<^verbatim>\<open>datetime.date()\<close>\<close>
  "date_of t = t div 86400000000"

definition combine :: "int \<Rightarrow> nat \<times> nat \<Rightarrow> timestamp" where
  \<comment> \<open>\<^verbatim>\<open>datetime.combine(date, time)\<close> for a time of day (hour, minute), seconds zero\<close>
  "combine d hm = d * 86400000000 + (int (fst hm) * 3600 + int (snd hm) * 60) * 1000000"

section \<open>Parsing the clock time\<close>

text \<open>
  \<^verbatim>\<open>message.text.strip()\<close> and \<^verbatim>\<open>datetime.strptime(time_str, "%H:%M").time()\<close>.
  \<^verbatim>\<open>strptime\<close> compiles the format to the regular expression
  \<^verbatim>\<open>(2[0-3]|[0-1]\d|\d):([0-5]\d|\d)\<close>, matches it at the start of the string (the
  alternatives in this order, backtracking) and raises \<^verbatim>\<open>ValueError\<close> when there is
  no match or when the match leaves text over. \<^verbatim>\<open>None\<close> is the \<^verbatim>\<open>ValueError\<close>.
  A character is a byte here, so \<^verbatim>\<open>\d\<close> is an ASCII digit and the white space
  \<^verbatim>\<open>strip\<close> removes is that of the first 256 code points.
\<close>

definition is_space :: "char \<Rightarrow> bool" where
  "is_space c = ((of_char c :: nat) \<in> {9, 10, 11, 12, 13, 28, 29, 30, 31, 32, 133, 160})"

definition strip :: "string \<Rightarrow> string" where
  "strip s = rev (dropWhile is_space (rev (dropWhile is_space s)))"

definition is_digit :: "char \<Rightarrow> bool" where
  "is_digit c = (48 \<le> (of_char c :: nat) \<and> (of_char c :: nat) \<le> 57)"

definition digit :: "char \<Rightarrow> nat" where
  "digit c = of_char c - 48"

fun re_H :: "string \<Rightarrow> (nat \<times> string) list" where
  "re_H (a # b # r) =
     (if a = CHR ''2'' \<and> is_digit b \<and> digit b \<le> 3 then [(20 + digit b, r)] else []) @
     (if is_digit a \<and> digit a \<le> 1 \<and> is_digit b then [(10 * digit a + digit b, r)] else []) @
     (if is_digit a then [(digit a, b # r)] else [])"
| "re_H [a] = (if is_digit a then [(digit a, [])] else [])"
| "re_H [] = []"

fun re_M :: "string \<Rightarrow> (nat \<times> string) list" where
  "re_M (a # b # r) =
     (if is_digit a \<and> digit a \<le> 5 \<and> is_digit b then [(10 * digit a + digit b, r)] else []) @
     (if is_digit a then [(digit a, b # r)] else [])"
| "re_M [a] = (if is_digit a then [(digit a, [])] else [])"
| "re_M [] = []"

fun re_colon :: "string \<Rightarrow> string list" where
  "re_colon (c # r) = (if c = CHR '':'' then [r] else [])"
| "re_colon [] = []"

definition strptime_HM :: "string \<Rightarrow> (nat \<times> nat) option" where
  "strptime_HM s =
     (case concat (map (\<lambda>(h, r). concat (map (\<lambda>r'. map (\<lambda>(m, r''). (h, m, r'')) (re_M r'))
                                              (re_colon r)))
                       (re_H s)) of
        [] \<Rightarrow> None
      | (h, m, rest) # _ \<Rightarrow> if rest = [] then Some (h, m) else None)"

section \<open>The tables\<close>

text \<open>
  The rows of \<^verbatim>\<open>users\<close>, \<^verbatim>\<open>channels\<close> and \<^verbatim>\<open>scheduled_posts\<close> as
  \<^verbatim>\<open>_create_tables_pg\<close> declares them; the field prefixes are the aliases the
  queries use (\<^verbatim>\<open>u\<close>, \<^verbatim>\<open>c\<close>, \<^verbatim>\<open>sp\<close>). A nullable column is an option.
\<close>

record user_row =
  u_id :: nat
  u_telegram_id :: int
  u_username :: "string option"
  u_full_name :: "string option"
  u_channels_limit :: int
  u_posts_per_day_limit :: int
  u_subscribed :: bool
  u_subscription_until :: "timestamp option"
  u_created_at :: timestamp
  u_updated_at :: timestamp

record channel_row =
  c_id :: nat
  c_user_id :: nat
  c_channel_id :: string
  c_channel_title :: string
  c_is_active :: bool
  c_created_at :: timestamp

record post_row =
  sp_id :: nat
  sp_user_id :: nat
  sp_channel_id :: string
  sp_message_text :: string
  sp_photo_id :: "string option"
  sp_scheduled_time :: timestamp
  sp_is_published :: bool
  sp_created_at :: timestamp
  sp_published_at :: "timestamp option"

text \<open>
  The database: the three tables in insertion order, the two \<^verbatim>\<open>SERIAL\<close> sequences the
  modelled inserts draw from, and the backend flag \<^verbatim>\<open>Database.is_sqlite\<close>.
\<close>

record database =
  users :: "user_row list"
  channels :: "channel_row list"
  scheduled_posts :: "post_row list"
  next_user_id :: nat
  next_post_id :: nat
  is_sqlite :: bool

text \<open>
  What the environment does to one awaited call (a statement sent to the store, a message
  handed to the transport): it returns, or it raises.
\<close>

datatype outcome = Succeeds | Raises

definition TARIFF_CHANNELS_LIMIT :: int where
  "TARIFF_CHANNELS_LIMIT = 2"

definition TARIFF_POSTS_PER_DAY :: int where
  "TARIFF_POSTS_PER_DAY = 8"

section \<open>Post Store operations\<close>

definition truthy :: "string option \<Rightarrow> bool" where
  \<comment> \<open>Python's truth value of an optional string: neither \<^verbatim>\<open>None\<close> nor empty\<close>
  "truthy s = (case s of None \<Rightarrow> False | Some v \<Rightarrow> v \<noteq> [])"

definition new_user :: "nat \<Rightarrow> int \<Rightarrow> string option \<Rightarrow> string option \<Rightarrow> timestamp \<Rightarrow> user_row" where
  \<comment> \<open>\<^verbatim>\<open>INSERT INTO users (telegram_id, username, full_name)\<close>: the other columns take
      the defaults of \<^verbatim>\<open>CREATE TABLE users\<close>\<close>
  "new_user i tid username full_name now =
     \<lparr>u_id = i, u_telegram_id = tid, u_username = username, u_full_name = full_name,
      u_channels_limit = 1, u_posts_per_day_limit = 3, u_subscribed = False,
      u_subscription_until = None, u_created_at = now, u_updated_at = now\<rparr>"

definition get_or_create_user ::
  "outcome \<Rightarrow> timestamp \<Rightarrow> int \<Rightarrow> string option \<Rightarrow> string option \<Rightarrow> database
     \<Rightarrow> user_row option \<times> database" where
  "get_or_create_user io now tid username full_name d =
     (case io of
        Raises \<Rightarrow> (None, d)
      | Succeeds \<Rightarrow>
          (case find (\<lambda>u. u_telegram_id u = tid) (users d) of
             None \<Rightarrow>
               (let u = new_user (next_user_id d) tid username full_name now
                in (Some u, d\<lparr>users := users d @ [u], next_user_id := Suc (next_user_id d)\<rparr>))
           | Some u \<Rightarrow>
               if \<not> is_sqlite d \<and> truthy username \<and> u_username u \<noteq> username
               then (Some u,
                     d\<lparr>users := map (\<lambda>x. if u_id x = u_id u
                                          then x\<lparr>u_username := username, u_updated_at := now\<rparr>
                                          else x) (users d)\<rparr>)
               else (Some u, d)))"

definition update_user_subscription ::
  "outcome \<Rightarrow> timestamp \<Rightarrow> timestamp \<Rightarrow> int \<Rightarrow> bool \<Rightarrow> int \<Rightarrow> database \<Rightarrow> bool \<times> database" where
  \<comment> \<open>\<^verbatim>\<open>py_now\<close> is \<^verbatim>\<open>datetime.now()\<close>, \<^verbatim>\<open>db_now\<close> is \<^verbatim>\<open>CURRENT_TIMESTAMP\<close>. One
      \<^verbatim>\<open>UPDATE\<close> statement; PostgreSQL reports \<^verbatim>\<open>result == "UPDATE 1"\<close>, SQLite
      \<^verbatim>\<open>True\<close>.\<close>
  "update_user_subscription io py_now db_now tid subscribed days d =
     (case io of
        Raises \<Rightarrow> (False, d)
      | Succeeds \<Rightarrow>
          (let subscription_until = py_now + timedelta_days days
           in (if is_sqlite d then True
               else length (filter (\<lambda>u. u_telegram_id u = tid) (users d)) = 1,
               d\<lparr>users := map (\<lambda>u. if u_telegram_id u = tid
                                    then u\<lparr>u_subscribed := subscribed,
                                           u_subscription_until := Some subscription_until,
                                           u_channels_limit := TARIFF_CHANNELS_LIMIT,
                                           u_posts_per_day_limit := TARIFF_POSTS_PER_DAY,
                                           u_updated_at := db_now\<rparr>
                                    else u) (users d)\<rparr>)))"

definition add_scheduled_post ::
  "outcome \<Rightarrow> timestamp \<Rightarrow> nat \<Rightarrow> string \<Rightarrow> string \<Rightarrow> timestamp \<Rightarrow> string option \<Rightarrow> database
     \<Rightarrow> nat option \<times> database" where
  \<comment> \<open>the row takes the next id of the sequence; \<^verbatim>\<open>is_published\<close> defaults to false,
      \<^verbatim>\<open>created_at\<close> to \<^verbatim>\<open>CURRENT_TIMESTAMP\<close>, \<^verbatim>\<open>published_at\<close> to null. PostgreSQL
      refuses a \<^verbatim>\<open>user_id\<close> that is not in \<^verbatim>\<open>users\<close> (\<^verbatim>\<open>REFERENCES users(id)\<close>), which
      ends in the \<^verbatim>\<open>except\<close> like any other failure; SQLite, as connected here, does not
      check foreign keys.\<close>
  "add_scheduled_post io now user_id channel_id message_text scheduled_time photo_id d =
     (case io of
        Raises \<Rightarrow> (None, d)
      | Succeeds \<Rightarrow>
          if \<not> is_sqlite d \<and> user_id \<notin> u_id ` set (users d) then (None, d)
          else
            (Some (next_post_id d),
             d\<lparr>scheduled_posts := scheduled_posts d @
                  [\<lparr>sp_id = next_post_id d, sp_user_id = user_id, sp_channel_id = channel_id,
                    sp_message_text = message_text, sp_photo_id = photo_id,
                    sp_scheduled_time = scheduled_time, sp_is_published = False,
                    sp_created_at = now, sp_published_at = None\<rparr>],
               next_post_id := Suc (next_post_id d)\<rparr>))"

text \<open>
  A row of the join the two delivery queries select: \<^verbatim>\<open>sp.*, u.telegram_id,
  c.channel_id as channel_ident\<close>.
\<close>

record joined_post =
  jp_post :: post_row
  jp_telegram_id :: int
  jp_channel_ident :: string

definition joined_rows :: "database \<Rightarrow> (post_row \<Rightarrow> channel_row \<Rightarrow> bool) \<Rightarrow> joined_post list" where
  \<comment> \<open>\<^verbatim>\<open>FROM scheduled_posts sp JOIN users u ON sp.user_id = u.id JOIN channels c ON
      sp.channel_id = c.channel_id AND c.user_id = u.id WHERE ...\<close>\<close>
  "joined_rows d wh =
     concat (map (\<lambda>sp.
       concat (map (\<lambda>u.
         map (\<lambda>c. \<lparr>jp_post = sp, jp_telegram_id = u_telegram_id u,
                    jp_channel_ident = c_channel_id c\<rparr>)
             (filter (\<lambda>c. sp_channel_id sp = c_channel_id c \<and> c_user_id c = u_id u \<and> wh sp c)
                     (channels d)))
         (filter (\<lambda>u. sp_user_id sp = u_id u) (users d))))
       (scheduled_posts d))"

definition get_posts_to_publish :: "outcome \<Rightarrow> timestamp \<Rightarrow> database \<Rightarrow> joined_post list" where
  \<comment> \<open>\<^verbatim>\<open>now\<close> is the store's \<^verbatim>\<open>NOW()\<close>. \<^verbatim>\<open>ORDER BY sp.scheduled_time\<close> is a sort by
      that key (rows of equal key in the order of the join, which SQL leaves open).\<close>
  "get_posts_to_publish io now d =
     (case io of
        Raises \<Rightarrow> []
      | Succeeds \<Rightarrow>
          sort_key (\<lambda>r. sp_scheduled_time (jp_post r))
            (joined_rows d (\<lambda>sp c. sp_scheduled_time sp \<le> now + timedelta_minutes 5
                                   \<and> \<not> sp_is_published sp \<and> c_is_active c)))"

definition mark_post_published :: "outcome \<Rightarrow> timestamp \<Rightarrow> nat \<Rightarrow> database \<Rightarrow> bool \<times> database" where
  \<comment> \<open>\<^verbatim>\<open>UPDATE scheduled_posts SET is_published = TRUE, published_at = CURRENT_TIMESTAMP
      WHERE id = $1\<close>\<close>
  "mark_post_published io now post_id d =
     (case io of
        Raises \<Rightarrow> (False, d)
      | Succeeds \<Rightarrow>
          (True,
           d\<lparr>scheduled_posts :=
                map (\<lambda>sp. if sp_id sp = post_id
                          then sp\<lparr>sp_is_published := True, sp_published_at := Some now\<rparr>
                          else sp) (scheduled_posts d)\<rparr>))"

section \<open>The scheduler\<close>

text \<open>
  The job store of the process-wide \<^verbatim>\<open>AsyncIOScheduler\<close>: a table from job ids to jobs.
  The ids are \<^verbatim>\<open>'check_posts'\<close> and \<^verbatim>\<open>f"post_{post_id}"\<close>, one per post id; a date job
  runs \<^verbatim>\<open>publish_scheduled_post\<close> once at \<^verbatim>\<open>run_date\<close> with \<^verbatim>\<open>args=[post_id]\<close>.
  \<^verbatim>\<open>add_job(..., replace_existing=True)\<close> overwrites the entry of its id.
\<close>

datatype job_id = Check_posts | Post_job nat

datatype job = Interval_job int | Date_job timestamp nat

type_synonym scheduler = "job_id \<Rightarrow> job option"

definition add_job :: "job_id \<Rightarrow> job \<Rightarrow> scheduler \<Rightarrow> scheduler" where
  "add_job jid j s = s(jid \<mapsto> j)"

section \<open>Creating a post: the time-entry handler\<close>

datatype time_check = Accepted | TooSoon | TooFarAhead

definition check_scheduled_time :: "timestamp \<Rightarrow> timestamp \<Rightarrow> timestamp \<Rightarrow> time_check" where
  \<comment> \<open>the two tests of \<^verbatim>\<open>process_post_time\<close> on \<^verbatim>\<open>scheduled_datetime\<close>; \<^verbatim>\<open>now1\<close> and
      \<^verbatim>\<open>now2\<close> are the values of its two calls of \<^verbatim>\<open>datetime.utcnow()\<close>\<close>
  "check_scheduled_time scheduled_datetime now1 now2 =
     (if scheduled_datetime < now1 + timedelta_minutes 2 then TooSoon
      else if scheduled_datetime > now2 + timedelta_days 1 then TooFarAhead
      else Accepted)"

text \<open>What the conversation has collected before the time is asked for (\<^verbatim>\<open>state.get_data()\<close>).\<close>

record fsm_data =
  fd_user_id :: "nat option"
  fd_channel_id :: "string option"
  fd_message_text :: "string option"
  fd_photo_id :: "string option"

text \<open>The handler's answer to the user; \<^verbatim>\<open>Post_scheduled\<close> carries the new post id and its time.\<close>

datatype answer =
    No_time_text
  | Too_soon
  | Too_far_ahead
  | Wrong_format
  | Data_error
  | Save_error
  | Post_scheduled nat timestamp

definition process_post_time ::
  "string option \<Rightarrow> timestamp \<Rightarrow> timestamp \<Rightarrow> timestamp \<Rightarrow> fsm_data \<Rightarrow> outcome \<Rightarrow> timestamp
     \<Rightarrow> database \<Rightarrow> scheduler \<Rightarrow> answer \<times> database \<times> scheduler" where
  \<comment> \<open>\<^verbatim>\<open>t0\<close>, \<^verbatim>\<open>t1\<close>, \<^verbatim>\<open>t2\<close> are the three successive values of
      \<^verbatim>\<open>datetime.utcnow()\<close>; \<^verbatim>\<open>io\<close> and \<^verbatim>\<open>db_now\<close> are the store's behaviour and clock at
      the insert\<close>
  "process_post_time message_text t0 t1 t2 data io db_now d s =
     (case message_text of
        None \<Rightarrow> (No_time_text, d, s)
      | Some txt \<Rightarrow>
          if txt = [] then (No_time_text, d, s)
          else
            (case strptime_HM (strip txt) of
               None \<Rightarrow> (Wrong_format, d, s)
             | Some post_time \<Rightarrow>
                 (let today = date_of t0;
                      scheduled_datetime = combine today post_time
                  in case check_scheduled_time scheduled_datetime t1 t2 of
                       TooSoon \<Rightarrow> (Too_soon, d, s)
                     | TooFarAhead \<Rightarrow> (Too_far_ahead, d, s)
                     | Accepted \<Rightarrow>
                         (case (fd_user_id data, fd_channel_id data, fd_message_text data) of
                            (Some user_id, Some channel_id, Some body) \<Rightarrow>
                              if user_id = 0 \<or> channel_id = [] \<or> body = [] then (Data_error, d, s)
                              else
                                (case add_scheduled_post io db_now user_id channel_id body
                                        scheduled_datetime (fd_photo_id data) d of
                                   (None, d') \<Rightarrow> (Save_error, d', s)
                                 | (Some post_id, d') \<Rightarrow>
                                     if post_id = 0 then (Save_error, d', s)
                                     else (Post_scheduled post_id scheduled_datetime, d',
                                           add_job (Post_job post_id)
                                             (Date_job scheduled_datetime post_id) s))
                          | _ \<Rightarrow> (Data_error, d, s)))))"

section \<open>The Delivery Executor\<close>

text \<open>
  What the process has done to the outside: the messages the transport accepted, oldest
  first (\<^verbatim>\<open>bot.send_photo\<close> and \<^verbatim>\<open>bot.send_message\<close> to a channel; the notice
  \<^verbatim>\<open>notify_user\<close> sends to a user, which quotes \<^verbatim>\<open>message_text[:100]\<close>), and the lines
  \<^verbatim>\<open>publish_scheduled_post\<close> and \<^verbatim>\<open>notify_user\<close> log.
\<close>

datatype message =
    Send_photo string string string
  | Send_message string string
  | Notify int string

datatype log_line =
    Info_published nat string
  | Warn_not_found nat
  | Err_publish nat
  | Err_notify int

record world =
  store :: database
  outbox :: "message list"
  logged :: "log_line list"

text \<open>How the environment answers the awaited calls of one delivery, and the store's clock.\<close>

record delivery_env =
  on_load :: outcome
  on_send :: outcome
  on_mark :: outcome
  on_notify :: outcome
  db_clock :: timestamp

definition load_post :: "nat \<Rightarrow> database \<Rightarrow> joined_post option" where
  \<comment> \<open>\<^verbatim>\<open>fetchrow\<close> of the join \<^verbatim>\<open>WHERE sp.id = $1 AND sp.is_published = FALSE\<close>: the first
      row, if any\<close>
  "load_post post_id d =
     (case joined_rows d (\<lambda>sp c. sp_id sp = post_id \<and> \<not> sp_is_published sp) of
        [] \<Rightarrow> None
      | r # _ \<Rightarrow> Some r)"

definition notify_user :: "outcome \<Rightarrow> int \<Rightarrow> string \<Rightarrow> world \<Rightarrow> bool \<times> world" where
  "notify_user io telegram_id excerpt w =
     (case io of
        Succeeds \<Rightarrow> (True, w\<lparr>outbox := outbox w @ [Notify telegram_id excerpt]\<rparr>)
      | Raises \<Rightarrow> (False, w\<lparr>logged := logged w @ [Err_notify telegram_id]\<rparr>))"

definition post_message :: "joined_post \<Rightarrow> message" where
  \<comment> \<open>\<^verbatim>\<open>if photo_id: send_photo(...) else: send_message(...)\<close>\<close>
  "post_message post =
     (case sp_photo_id (jp_post post) of
        None \<Rightarrow> Send_message (jp_channel_ident post) (sp_message_text (jp_post post))
      | Some photo_id \<Rightarrow>
          if photo_id = []
          then Send_message (jp_channel_ident post) (sp_message_text (jp_post post))
          else Send_photo (jp_channel_ident post) photo_id (sp_message_text (jp_post post)))"

definition publish_scheduled_post :: "delivery_env \<Rightarrow> nat \<Rightarrow> world \<Rightarrow> world" where
  \<comment> \<open>every exception ends in the handler's \<^verbatim>\<open>except Exception\<close>, which logs and returns;
      the result of \<^verbatim>\<open>mark_post_published\<close> is not looked at\<close>
  "publish_scheduled_post env post_id w =
     (case on_load env of
        Raises \<Rightarrow> w\<lparr>logged := logged w @ [Err_publish post_id]\<rparr>
      | Succeeds \<Rightarrow>
          (case load_post post_id (store w) of
             None \<Rightarrow> w\<lparr>logged := logged w @ [Warn_not_found post_id]\<rparr>
           | Some post \<Rightarrow>
               (case on_send env of
                  Raises \<Rightarrow> w\<lparr>logged := logged w @ [Err_publish post_id]\<rparr>
                | Succeeds \<Rightarrow>
                    (let w1 = w\<lparr>outbox := outbox w @ [post_message post],
                                logged := logged w @ [Info_published post_id (jp_channel_ident post)]\<rparr>;
                         w2 = w1\<lparr>store := snd (mark_post_published (on_mark env) (db_clock env)
                                                  post_id (store w1))\<rparr>
                     in if jp_telegram_id post = 0 then w2
                        else snd (notify_user (on_notify env) (jp_telegram_id post)
                                    (take 100 (sp_message_text (jp_post post))) w2)))))"

section \<open>The catch-up sweep\<close>

fun sweep :: "(nat \<Rightarrow> delivery_env) \<Rightarrow> nat \<Rightarrow> joined_post list \<Rightarrow> world \<Rightarrow> world" where
  \<comment> \<open>\<^verbatim>\<open>for post in posts: if post_id: await publish_scheduled_post(post_id)\<close>; the
      environment of the \<open>k\<close>-th pass is \<open>envs k\<close>\<close>
  "sweep envs k [] w = w"
| "sweep envs k (post # posts) w =
     sweep envs (Suc k) posts
       (if sp_id (jp_post post) = 0 then w
        else publish_scheduled_post (envs k) (sp_id (jp_post post)) w)"

definition check_pending_posts ::
  "outcome \<Rightarrow> timestamp \<Rightarrow> (nat \<Rightarrow> delivery_env) \<Rightarrow> world \<Rightarrow> world" where
  "check_pending_posts io now envs w = sweep envs 0 (get_posts_to_publish io now (store w)) w"

section \<open>Startup: rebuilding the timers\<close>






section \<open>Constraints of the schema and the due posts\<close>

text \<open>
  What \<^verbatim>\<open>CREATE TABLE\<close> promises about the rows the delivery queries join: \<^verbatim>\<open>users.id\<close> is
  a primary key, \<^verbatim>\<open>UNIQUE(user_id, channel_id)\<close> on \<^verbatim>\<open>channels\<close>, and
  \<^verbatim>\<open>channels.user_id REFERENCES users(id)\<close>.
\<close>

definition schema_constraints :: "database \<Rightarrow> bool" where
  "schema_constraints d =
     (distinct (map u_id (users d))
      \<and> distinct (map (\<lambda>c. (c_user_id c, c_channel_id c)) (channels d))
      \<and> (\<forall>c \<in> set (channels d). c_user_id c \<in> u_id ` set (users d)))"

text \<open>
  A due post, in the words of the specification: unpublished, due no later than five
  minutes from now, and its channel (the row of its owner with its channel id) is active.
\<close>

definition due_post :: "timestamp \<Rightarrow> database \<Rightarrow> post_row \<Rightarrow> bool" where
  "due_post now d sp =
     (\<not> sp_is_published sp \<and> sp_scheduled_time sp \<le> now + timedelta_minutes 5
      \<and> (\<exists>c \<in> set (channels d). c_channel_id c = sp_channel_id sp \<and> c_user_id c = sp_user_id sp
                                  \<and> c_is_active c))"

text \<open>The rows the join yields for one post (the inner part of \<open>joined_rows\<close>).\<close>

definition inner_rows :: "database \<Rightarrow> (post_row \<Rightarrow> channel_row \<Rightarrow> bool) \<Rightarrow> post_row \<Rightarrow> joined_post list" where
  "inner_rows d wh sp = concat (map (\<lambda>u.
         map (\<lambda>c. \<lparr>jp_post = sp, jp_telegram_id = u_telegram_id u,
                    jp_channel_ident = c_channel_id c\<rparr>)
             (filter (\<lambda>c. sp_channel_id sp = c_channel_id c \<and> c_user_id c = u_id u \<and> wh sp c)
                     (channels d)))
         (filter (\<lambda>u. sp_user_id sp = u_id u) (users d)))"

text \<open>The row the \<^verbatim>\<open>UPDATE\<close> of \<^verbatim>\<open>update_user_subscription\<close> makes of a matching row.\<close>

definition grant :: "timestamp \<Rightarrow> timestamp \<Rightarrow> bool \<Rightarrow> int \<Rightarrow> user_row \<Rightarrow> user_row" where
  "grant py_now db_now subscribed days u =
     u\<lparr>u_subscribed := subscribed,
       u_subscription_until := Some (py_now + timedelta_days days),
       u_channels_limit := TARIFF_CHANNELS_LIMIT,
       u_posts_per_day_limit := TARIFF_POSTS_PER_DAY,
       u_updated_at := db_now\<rparr>"

section \<open>Counting deliveries\<close>

text \<open>
  The messages of an outbox that went to a channel, and the number of times a post was
  sent: \<^verbatim>\<open>publish_scheduled_post\<close> logs the line \<open>Info_published\<close> with the post id exactly
  when its send to the channel has returned.
\<close>

definition channel_sends :: "message list \<Rightarrow> message list" where
  "channel_sends ms = filter (\<lambda>m. case m of Notify _ _ \<Rightarrow> False | _ \<Rightarrow> True) ms"

definition deliveries :: "nat \<Rightarrow> world \<Rightarrow> nat" where
  "deliveries post_id w =
     length (filter (\<lambda>l. case l of Info_published i _ \<Rightarrow> i = post_id | _ \<Rightarrow> False) (logged w))"



section \<open>Concrete data for the worked instances\<close>

definition example_data :: fsm_data where
  "example_data = \<lparr>fd_user_id = Some 1, fd_channel_id = Some ''@news'',
                    fd_message_text = Some ''hello'', fd_photo_id = None\<rparr>"

definition empty_db :: database where
  "empty_db = \<lparr>users = [], channels = [], scheduled_posts = [], next_user_id = 1,
                next_post_id = 1, is_sqlite = False\<rparr>"

definition user1 :: user_row where
  "user1 = \<lparr>u_id = 1, u_telegram_id = 42, u_username = Some ''ann'', u_full_name = None,
             u_channels_limit = 1, u_posts_per_day_limit = 3, u_subscribed = False,
             u_subscription_until = None, u_created_at = 0, u_updated_at = 0\<rparr>"

definition channel_news :: channel_row where
  "channel_news = \<lparr>c_id = 1, c_user_id = 1, c_channel_id = ''@news'', c_channel_title = ''News'',
                    c_is_active = True, c_created_at = 0\<rparr>"

definition channel_old :: channel_row where
  "channel_old = \<lparr>c_id = 2, c_user_id = 1, c_channel_id = ''@old'', c_channel_title = ''Old'',
                   c_is_active = False, c_created_at = 0\<rparr>"

definition post_at :: "nat \<Rightarrow> string \<Rightarrow> string \<Rightarrow> timestamp \<Rightarrow> post_row" where
  "post_at i ch body t = \<lparr>sp_id = i, sp_user_id = 1, sp_channel_id = ch, sp_message_text = body,
                          sp_photo_id = None, sp_scheduled_time = t, sp_is_published = False,
                          sp_created_at = 0, sp_published_at = None\<rparr>"

definition example_db :: database where
  "example_db = \<lparr>users = [user1], channels = [channel_news, channel_old],
                  scheduled_posts = [post_at 1 ''@news'' ''first'' 2000, post_at 2 ''@news'' ''second'' 1000,
                                     post_at 3 ''@old'' ''third'' 500],
                  next_user_id = 2, next_post_id = 4, is_sqlite = False\<rparr>"


definition example_world :: world where
  "example_world = \<lparr>store = example_db, outbox = [], logged = []\<rparr>"

definition env_ok :: delivery_env where
  "env_ok = \<lparr>on_load = Succeeds, on_send = Succeeds, on_mark = Succeeds, on_notify = Succeeds,
             db_clock = 3000\<rparr>"

definition env_send_fails :: delivery_env where
  "env_send_fails = env_ok\<lparr>on_send := Raises\<rparr>"


section \<open>Creating a post: facts\<close>

lemma digit_le_9: "is_digit c \<Longrightarrow> digit c \<le> 9"
  unfolding is_digit_def digit_def by arith

lemma re_H_bound: "(h, r) \<in> set (re_H s) \<Longrightarrow> h < 24"
  by (induction s rule: re_H.induct) (auto split: if_splits dest: digit_le_9)

lemma re_M_bound: "(m, r) \<in> set (re_M s) \<Longrightarrow> m < 60"
  by (induction s rule: re_M.induct) (auto split: if_splits dest: digit_le_9)

lemma strptime_HM_range:
  assumes "strptime_HM s = Some (h, m)"
  shows "h < 24 \<and> m < 60"
proof -
  let ?L = "concat (map (\<lambda>(h, r). concat (map (\<lambda>r'. map (\<lambda>(m, r''). (h, m, r'')) (re_M r'))
                                              (re_colon r))) (re_H s))"
  from assms obtain rest tl where L: "?L = (h, m, rest) # tl"
    by (auto simp: strptime_HM_def split: list.splits if_splits)
  then have "(h, m, rest) \<in> set ?L" by simp
  then obtain r r' where "(h, r) \<in> set (re_H s)" "(m, rest) \<in> set (re_M r')"
    by auto
  then show ?thesis using re_H_bound re_M_bound by blast
qed

lemma date_of_combine:
  assumes "fst hm < 24" "snd hm < 60"
  shows "date_of (combine d hm) = d"
proof -
  let ?x = "(int (fst hm) * 3600 + int (snd hm) * 60) * 1000000"
  have "0 \<le> ?x" by simp
  moreover have "?x < 86400000000" using assms by simp
  ultimately have "(d * 86400000000 + ?x) div 86400000000 = d"
    by simp
  then show ?thesis by (simp add: date_of_def combine_def)
qed


lemma same_date_between:
  assumes "date_of s = date_of t0" "t0 \<le> t1" "t1 \<le> s"
  shows "date_of t1 = date_of t0"
proof -
  have "date_of t0 \<le> date_of t1" using assms(2) unfolding date_of_def by (rule zdiv_mono1) simp
  moreover have "date_of t1 \<le> date_of s" using assms(3) unfolding date_of_def by (rule zdiv_mono1) simp
  ultimately show ?thesis using assms(1) by simp
qed


text \<open>
  The two tests on their own, for a due time given as a number: read against the clock value
  \<open>now\<close> of the first test (the second reads the clock again, at \<open>now'\<close>), they refuse
  \<open>now\<close> + 1 minute and \<open>now\<close> + 25 hours and let \<open>now\<close> + 2 minutes and \<open>now\<close> + 23 hours pass.
  The handler does not take a due time from the user, though: it takes a clock time and puts
  it on today's date, and only such times reach the tests.
\<close>

lemma check_scheduled_time_boundaries:
  assumes "now \<le> now'" and "now' < now + timedelta_hours 1"
  shows "check_scheduled_time (now + timedelta_minutes 1) now now' = TooSoon
       \<and> check_scheduled_time (now + timedelta_minutes 2) now now' = Accepted
       \<and> check_scheduled_time (now + timedelta_hours 25) now now' = TooFarAhead
       \<and> check_scheduled_time (now + timedelta_hours 23) now now' = Accepted"
  using assms
  by (simp add: check_scheduled_time_def timedelta_minutes_def timedelta_hours_def
        timedelta_days_def)








text \<open>
  Claim C10. Whenever the time-entry handler creates a post, the row it appends to
  \<^verbatim>\<open>scheduled_posts\<close> (and the date job it arms) carries a \<^verbatim>\<open>scheduled_time\<close> on the UTC
  calendar date of \<open>t0\<close>, the clock value the handler took today's date from; with a clock
  that does not run backwards, the clock value \<open>t1\<close> of the two-minute test lies on that
  date too. The 24-hour test plays no part.
\<close>

theorem scheduled_on_creation_day:
  assumes "process_post_time txt t0 t1 t2 data io db_now d s
             = (Post_scheduled post_id scheduled, d', s')"
  shows "\<exists>sp. scheduled_posts d' = scheduled_posts d @ [sp] \<and> sp_id sp = post_id
            \<and> sp_scheduled_time sp = scheduled
            \<and> date_of (sp_scheduled_time sp) = date_of t0
            \<and> (t0 \<le> t1 \<longrightarrow> date_of t1 = date_of t0)
            \<and> s' (Post_job post_id) = Some (Date_job scheduled post_id)"
proof -
  from assms obtain body hm uid ch msg where
    hm: "strptime_HM (strip body) = Some hm" and
    sched: "scheduled = combine (date_of t0) hm" and
    chk: "check_scheduled_time scheduled t1 t2 = Accepted" and
    add: "add_scheduled_post io db_now uid ch msg scheduled (fd_photo_id data) d
            = (Some post_id, d')" and
    s': "s' = add_job (Post_job post_id) (Date_job scheduled post_id) s"
    by (auto simp: process_post_time_def Let_def
             split: option.splits if_splits time_check.splits prod.splits)
  from hm have "fst hm < 24 \<and> snd hm < 60"
    using strptime_HM_range [of "strip body" "fst hm" "snd hm"] by simp
  then have day: "date_of scheduled = date_of t0"
    using sched date_of_combine by simp
  from chk have "t1 \<le> scheduled"
    by (simp add: check_scheduled_time_def timedelta_minutes_def split: if_splits)
  with day have t1: "t0 \<le> t1 \<longrightarrow> date_of t1 = date_of t0"
    using same_date_between by blast
  from add obtain sp where "scheduled_posts d' = scheduled_posts d @ [sp]" "sp_id sp = post_id"
     "sp_scheduled_time sp = scheduled"
    by (auto simp: add_scheduled_post_def split: outcome.splits if_splits)
  with day t1 s' show ?thesis by (auto simp: add_job_def)
qed

lemma strptime_HM_example: "strptime_HM (strip '' 14:30'') = Some (14, 30)"
  by (simp add: strptime_HM_def strip_def is_space_def is_digit_def digit_def)

lemma process_post_time_example:
  "process_post_time (Some '' 14:30'') 3600000000 3600000001 3600000002 example_data Succeeds
         3600000003 example_db Map.empty
       = (Post_scheduled 4 52200000000,
          example_db\<lparr>scheduled_posts := scheduled_posts example_db @
             [\<lparr>sp_id = 4, sp_user_id = 1, sp_channel_id = ''@news'', sp_message_text = ''hello'',
               sp_photo_id = None, sp_scheduled_time = 52200000000, sp_is_published = False,
               sp_created_at = 3600000003, sp_published_at = None\<rparr>],
             next_post_id := 5\<rparr>,
          [Post_job 4 \<mapsto> Date_job 52200000000 4])"
  by (simp add: process_post_time_def strptime_HM_example date_of_def combine_def
        check_scheduled_time_def timedelta_minutes_def timedelta_days_def example_data_def
        add_scheduled_post_def example_db_def user1_def add_job_def)

theorem scheduled_on_creation_day_witness:
  "process_post_time (Some '' 14:30'') 3600000000 3600000001 3600000002 example_data Succeeds
         3600000003 example_db Map.empty
       = (Post_scheduled 4 52200000000,
          example_db\<lparr>scheduled_posts := scheduled_posts example_db @
             [\<lparr>sp_id = 4, sp_user_id = 1, sp_channel_id = ''@news'', sp_message_text = ''hello'',
               sp_photo_id = None, sp_scheduled_time = 52200000000, sp_is_published = False,
               sp_created_at = 3600000003, sp_published_at = None\<rparr>],
             next_post_id := 5\<rparr>,
          [Post_job 4 \<mapsto> Date_job 52200000000 4])
   \<and> date_of 52200000000 = date_of 3600000000
   \<and> date_of 3600000001 = date_of 3600000000"
  using scheduled_on_creation_day [OF process_post_time_example] process_post_time_example
  by (simp add: date_of_def)

section \<open>Post Store: facts\<close>

text \<open>
  Claim C3, as amended. Calling \<^verbatim>\<open>mark_post_published\<close> twice for one post id does not
  fail, and the published flags after the second call are those after the first; but
  \<^verbatim>\<open>published_at\<close> is stamped again: two calls at \<open>t1\<close> and \<open>t2\<close> leave the store as a single
  call at \<open>t2\<close> does. A call the store refuses returns false and changes nothing.
\<close>

theorem mark_post_published_twice:
  "fst (mark_post_published Succeeds t1 pid d) = True
   \<and> fst (mark_post_published Succeeds t2 pid (snd (mark_post_published Succeeds t1 pid d))) = True
   \<and> snd (mark_post_published Succeeds t2 pid (snd (mark_post_published Succeeds t1 pid d)))
       = snd (mark_post_published Succeeds t2 pid d)
   \<and> map sp_is_published
        (scheduled_posts (snd (mark_post_published Succeeds t2 pid
                                 (snd (mark_post_published Succeeds t1 pid d)))))
       = map sp_is_published (scheduled_posts (snd (mark_post_published Succeeds t1 pid d)))
   \<and> mark_post_published Raises t1 pid d = (False, d)"
  by (simp add: mark_post_published_def comp_def)

text \<open>
  The claim as stated fails: a second call a hundred microseconds later replaces the
  publication time of post 2.
\<close>

theorem mark_post_published_restamps:
  "map sp_published_at (scheduled_posts (snd (mark_post_published Succeeds 100 2 example_db)))
     = [None, Some 100, None]
   \<and> map sp_published_at
       (scheduled_posts (snd (mark_post_published Succeeds 200 2
                                (snd (mark_post_published Succeeds 100 2 example_db)))))
     = [None, Some 200, None]"
  by (simp add: mark_post_published_def example_db_def post_at_def)

lemma filter_key_unique:
  "distinct (map f xs) \<Longrightarrow> filter (\<lambda>x. f x = k) xs = (case find (\<lambda>x. f x = k) xs of None \<Rightarrow> [] | Some x \<Rightarrow> [x])"
proof (induction xs)
  case Nil
  then show ?case by simp
next
  case (Cons a xs)
  show ?case
  proof (cases "f a = k")
    case True
    from Cons.prems have "f a \<notin> f ` set xs" by simp
    with True have "\<forall>x \<in> set xs. f x \<noteq> k" by blast
    then have "filter (\<lambda>x. f x = k) xs = []" by (simp add: filter_empty_conv)
    with True show ?thesis by simp
  next
    case False
    with Cons show ?thesis by simp
  qed
qed

lemma filter_key_le1:
  "distinct (map f xs) \<Longrightarrow> filter (\<lambda>x. f x = k \<and> Q x) xs = [] \<or> (\<exists>x. filter (\<lambda>x. f x = k \<and> Q x) xs = [x])"
proof -
  assume d: "distinct (map f xs)"
  have "filter (\<lambda>x. f x = k \<and> Q x) xs = filter Q (filter (\<lambda>x. f x = k) xs)"
    by (simp add: conj_commute)
  then show ?thesis using filter_key_unique [OF d, of k]
    by (auto split: option.splits)
qed

lemma joined_rows_inner: "joined_rows d wh = concat (map (inner_rows d wh) (scheduled_posts d))"
  by (simp add: joined_rows_def inner_rows_def [abs_def])

lemma inner_rows_post:
  assumes "schema_constraints d"
  shows "map jp_post (inner_rows d wh sp) =
           (if \<exists>c \<in> set (channels d). c_channel_id c = sp_channel_id sp \<and> c_user_id c = sp_user_id sp \<and> wh sp c
            then [sp] else [])"
proof -
  let ?us = "filter (\<lambda>u. sp_user_id sp = u_id u) (users d)"
  let ?cs = "\<lambda>u. filter (\<lambda>c. sp_channel_id sp = c_channel_id c \<and> c_user_id c = u_id u \<and> wh sp c) (channels d)"
  let ?P = "\<exists>c \<in> set (channels d). c_channel_id c = sp_channel_id sp \<and> c_user_id c = sp_user_id sp \<and> wh sp c"
  have du: "distinct (map u_id (users d))" and
       dc: "distinct (map (\<lambda>c. (c_user_id c, c_channel_id c)) (channels d))" and
       fk: "\<forall>c \<in> set (channels d). c_user_id c \<in> u_id ` set (users d)"
    using assms by (simp_all add: schema_constraints_def)
  have us_eq: "?us = filter (\<lambda>u. u_id u = sp_user_id sp) (users d)"
    by (rule filter_cong) auto
  have cs_eq: "\<And>u. u_id u = sp_user_id sp \<Longrightarrow>
      ?cs u = filter (\<lambda>c. (c_user_id c, c_channel_id c) = (sp_user_id sp, sp_channel_id sp) \<and> wh sp c) (channels d)"
    by (rule filter_cong) auto
  show ?thesis
  proof (cases ?P)
    case True
    then obtain c where c: "c \<in> set (channels d)" "c_channel_id c = sp_channel_id sp"
        "c_user_id c = sp_user_id sp" "wh sp c" by blast
    with fk obtain u where u: "u \<in> set (users d)" "u_id u = sp_user_id sp" by force
    then have "find (\<lambda>u. u_id u = sp_user_id sp) (users d) \<noteq> None"
      by (auto simp: find_None_iff)
    then obtain u' where u': "?us = [u']"
      using filter_key_unique [OF du, of "sp_user_id sp"] us_eq by (auto split: option.splits)
    then have "u' \<in> set ?us" by simp
    then have u'id: "u_id u' = sp_user_id sp" by simp
    have "?cs u' \<noteq> []" using c u'id by (auto simp: filter_empty_conv)
    moreover have "?cs u' = [] \<or> (\<exists>x. ?cs u' = [x])"
      using filter_key_le1 [OF dc, of "(sp_user_id sp, sp_channel_id sp)" "wh sp"] cs_eq [OF u'id]
      by simp
    ultimately obtain c' where "?cs u' = [c']" by blast
    with u' True show ?thesis by (simp add: inner_rows_def)
  next
    case False
    then have "\<And>u. u \<in> set ?us \<Longrightarrow> ?cs u = []"
      by (auto simp: filter_empty_conv)
    then have "map jp_post (inner_rows d wh sp) = []"
      unfolding inner_rows_def by (simp add: map_concat comp_def)
    with False show ?thesis by simp
  qed
qed

lemma concat_if_filter: "concat (map (\<lambda>x. if P x then [x] else []) xs) = filter P xs"
  by (induction xs) simp_all

lemma joined_rows_posts:
  assumes "schema_constraints d"
  shows "map jp_post (joined_rows d wh) =
           filter (\<lambda>sp. \<exists>c \<in> set (channels d). c_channel_id c = sp_channel_id sp
                          \<and> c_user_id c = sp_user_id sp \<and> wh sp c) (scheduled_posts d)"
proof -
  have "map jp_post (joined_rows d wh) = concat (map (\<lambda>sp. map jp_post (inner_rows d wh sp)) (scheduled_posts d))"
    by (simp add: joined_rows_inner map_concat comp_def)
  also have "\<dots> = concat (map (\<lambda>sp. if \<exists>c \<in> set (channels d). c_channel_id c = sp_channel_id sp
                          \<and> c_user_id c = sp_user_id sp \<and> wh sp c then [sp] else []) (scheduled_posts d))"
    using inner_rows_post [OF assms] by simp
  also have "\<dots> = filter (\<lambda>sp. \<exists>c \<in> set (channels d). c_channel_id c = sp_channel_id sp
                          \<and> c_user_id c = sp_user_id sp \<and> wh sp c) (scheduled_posts d)"
    by (rule concat_if_filter)
  finally show ?thesis .
qed




text \<open>
  Claim C5. On a store that keeps the constraints of its schema, the query of
  \<^verbatim>\<open>get_posts_to_publish\<close> returns the due posts, each once, in ascending order of
  \<^verbatim>\<open>scheduled_time\<close>.
\<close>

theorem due_posts_query:
  assumes "schema_constraints d"
  shows "sorted (map (\<lambda>r. sp_scheduled_time (jp_post r)) (get_posts_to_publish Succeeds now d))
       \<and> mset (map jp_post (get_posts_to_publish Succeeds now d))
           = mset (filter (due_post now d) (scheduled_posts d))"
proof -
  let ?wh = "\<lambda>sp c. sp_scheduled_time sp \<le> now + timedelta_minutes 5
                     \<and> \<not> sp_is_published sp \<and> c_is_active c"
  have res: "get_posts_to_publish Succeeds now d
               = sort_key (\<lambda>r. sp_scheduled_time (jp_post r)) (joined_rows d ?wh)"
    by (simp add: get_posts_to_publish_def)
  have "mset (map jp_post (get_posts_to_publish Succeeds now d))
          = mset (map jp_post (joined_rows d ?wh))"
    by (simp add: res)
  also have "map jp_post (joined_rows d ?wh)
          = filter (\<lambda>sp. \<exists>c \<in> set (channels d). c_channel_id c = sp_channel_id sp
                          \<and> c_user_id c = sp_user_id sp \<and> ?wh sp c) (scheduled_posts d)"
    by (rule joined_rows_posts [OF assms])
  also have "\<dots> = filter (due_post now d) (scheduled_posts d)"
    by (rule filter_cong) (auto simp: due_post_def)
  finally have m: "mset (map jp_post (get_posts_to_publish Succeeds now d))
           = mset (filter (due_post now d) (scheduled_posts d))" .
  have "sorted (map (\<lambda>r. sp_scheduled_time (jp_post r)) (get_posts_to_publish Succeeds now d))"
    unfolding res by (rule sorted_sort_key)
  with m show ?thesis by simp
qed

lemma schema_constraints_example: "schema_constraints example_db"
  by (simp add: schema_constraints_def example_db_def user1_def channel_news_def channel_old_def)

lemma due_example: "filter (due_post 5000 example_db) (scheduled_posts example_db)
     = [post_at 1 ''@news'' ''first'' 2000, post_at 2 ''@news'' ''second'' 1000]"
  by (simp add: due_post_def example_db_def post_at_def channel_news_def channel_old_def
        timedelta_minutes_def)

theorem due_posts_query_witness:
  "schema_constraints example_db
   \<and> sorted (map (\<lambda>r. sp_scheduled_time (jp_post r)) (get_posts_to_publish Succeeds 5000 example_db))
   \<and> mset (map jp_post (get_posts_to_publish Succeeds 5000 example_db))
       = mset [post_at 1 ''@news'' ''first'' 2000, post_at 2 ''@news'' ''second'' 1000]"
  using due_posts_query [OF schema_constraints_example, of 5000] schema_constraints_example
  by (simp add: due_example)



lemma update_user_subscription_users:
  "users (snd (update_user_subscription Succeeds py_now db_now tid subscribed days d))
   = map (\<lambda>u. if u_telegram_id u = tid then grant py_now db_now subscribed days u else u) (users d)"
  by (simp add: update_user_subscription_def Let_def grant_def)

lemma grant_fields:
  "u_subscribed (grant py_now db_now subscribed days u) = subscribed
   \<and> u_subscription_until (grant py_now db_now subscribed days u) = Some (py_now + timedelta_days days)
   \<and> u_channels_limit (grant py_now db_now subscribed days u) = TARIFF_CHANNELS_LIMIT
   \<and> u_posts_per_day_limit (grant py_now db_now subscribed days u) = TARIFF_POSTS_PER_DAY
   \<and> u_telegram_id (grant py_now db_now subscribed days u) = u_telegram_id u"
  by (simp add: grant_def)

lemma get_or_create_user_new:
  "find (\<lambda>u. u_telegram_id u = tid) (users d) = None \<Longrightarrow>
      get_or_create_user Succeeds now tid username full_name d
              = (Some (new_user (next_user_id d) tid username full_name now),
                 d\<lparr>users := users d @ [new_user (next_user_id d) tid username full_name now],
                   next_user_id := Suc (next_user_id d)\<rparr>)"
  by (simp add: get_or_create_user_def Let_def)

lemma new_user_fields:
  "u_telegram_id (new_user i tid username full_name now) = tid
   \<and> u_channels_limit (new_user i tid username full_name now) = 1
   \<and> u_posts_per_day_limit (new_user i tid username full_name now) = 3
   \<and> \<not> u_subscribed (new_user i tid username full_name now)
   \<and> u_subscription_until (new_user i tid username full_name now) = None"
  by (simp add: new_user_def)

lemma granted_rows:
  assumes "v \<in> set (users (snd (update_user_subscription Succeeds py_now db_now tid subscribed days d)))"
      and "u_telegram_id v = tid"
  shows "u_subscribed v = subscribed
          \<and> u_subscription_until v = Some (py_now + timedelta_days days)
          \<and> u_channels_limit v = TARIFF_CHANNELS_LIMIT
          \<and> u_posts_per_day_limit v = TARIFF_POSTS_PER_DAY"
proof -
  from assms(1) obtain u where u: "u \<in> set (users d)"
     "v = (if u_telegram_id u = tid then grant py_now db_now subscribed days u else u)"
    unfolding update_user_subscription_users by auto
  with assms(2) have "v = grant py_now db_now subscribed days u"
    by (cases "u_telegram_id u = tid") simp_all
  then show ?thesis using grant_fields by simp
qed

lemma other_rows_kept:
  assumes "u \<in> set (users d)" and "u_telegram_id u \<noteq> tid"
  shows "u \<in> set (users (snd (update_user_subscription Succeeds py_now db_now tid subscribed days d)))"
proof -
  let ?g = "\<lambda>u. if u_telegram_id u = tid then grant py_now db_now subscribed days u else u"
  have "?g u = u" using assms(2) by simp
  then have "u \<in> ?g ` set (users d)" using assms(1) by (rule_tac x = u in rev_image_eqI) simp_all
  then show ?thesis by (simp only: update_user_subscription_users set_map)
qed

text \<open>
  Claim C9. A user row created by \<^verbatim>\<open>get_or_create_user\<close> has the limits of the free tier
  (1 channel, 3 posts a day), no subscription and no expiry. \<^verbatim>\<open>update_user_subscription\<close>
  is one step of the store: when it executes, every row of the granted telegram id has the
  flag, the expiry, the channel limit and the daily limit of the tier (none below the free
  tier), every other row is kept; when the store refuses it, nothing has changed.
\<close>

theorem subscription_grant:
  "(find (\<lambda>u. u_telegram_id u = tid) (users d) = None \<longrightarrow>
      (\<exists>u. get_or_create_user Succeeds now tid username full_name d
              = (Some u, d\<lparr>users := users d @ [u], next_user_id := Suc (next_user_id d)\<rparr>)
          \<and> u_telegram_id u = tid
          \<and> u_channels_limit u = 1 \<and> u_posts_per_day_limit u = 3
          \<and> \<not> u_subscribed u \<and> u_subscription_until u = None))
   \<and> (\<forall>v \<in> set (users (snd (update_user_subscription Succeeds py_now db_now tid subscribed days d))).
        u_telegram_id v = tid \<longrightarrow>
          u_subscribed v = subscribed
          \<and> u_subscription_until v = Some (py_now + timedelta_days days)
          \<and> u_channels_limit v = TARIFF_CHANNELS_LIMIT
          \<and> u_posts_per_day_limit v = TARIFF_POSTS_PER_DAY)
   \<and> map u_telegram_id (users (snd (update_user_subscription Succeeds py_now db_now tid subscribed days d)))
       = map u_telegram_id (users d)
   \<and> (\<forall>u \<in> set (users d). u_telegram_id u \<noteq> tid \<longrightarrow>
        u \<in> set (users (snd (update_user_subscription Succeeds py_now db_now tid subscribed days d))))
   \<and> update_user_subscription Raises py_now db_now tid subscribed days d = (False, d)
   \<and> 1 \<le> TARIFF_CHANNELS_LIMIT \<and> 3 \<le> TARIFF_POSTS_PER_DAY"
proof (intro conjI impI ballI)
  assume "find (\<lambda>u. u_telegram_id u = tid) (users d) = None"
  then show "\<exists>u. get_or_create_user Succeeds now tid username full_name d
              = (Some u, d\<lparr>users := users d @ [u], next_user_id := Suc (next_user_id d)\<rparr>)
          \<and> u_telegram_id u = tid
          \<and> u_channels_limit u = 1 \<and> u_posts_per_day_limit u = 3
          \<and> \<not> u_subscribed u \<and> u_subscription_until u = None"
    using get_or_create_user_new new_user_fields
    by (intro exI [of _ "new_user (next_user_id d) tid username full_name now"]) simp
next
  fix v
  assume "v \<in> set (users (snd (update_user_subscription Succeeds py_now db_now tid subscribed days d)))"
     and "u_telegram_id v = tid"
  then have g: "u_subscribed v = subscribed
          \<and> u_subscription_until v = Some (py_now + timedelta_days days)
          \<and> u_channels_limit v = TARIFF_CHANNELS_LIMIT
          \<and> u_posts_per_day_limit v = TARIFF_POSTS_PER_DAY"
    by (rule granted_rows)
  from g show "u_subscribed v = subscribed" by simp
  from g show "u_subscription_until v = Some (py_now + timedelta_days days)" by simp
  from g show "u_channels_limit v = TARIFF_CHANNELS_LIMIT" by simp
  from g show "u_posts_per_day_limit v = TARIFF_POSTS_PER_DAY" by simp
next
  show "map u_telegram_id (users (snd (update_user_subscription Succeeds py_now db_now tid subscribed days d)))
       = map u_telegram_id (users d)"
    unfolding update_user_subscription_users using grant_fields
    by (induction "users d") (simp_all add: comp_def)
next
  fix u
  assume "u \<in> set (users d)" and "u_telegram_id u \<noteq> tid"
  then show "u \<in> set (users (snd (update_user_subscription Succeeds py_now db_now tid subscribed days d)))"
    by (rule other_rows_kept)
next
  show "update_user_subscription Raises py_now db_now tid subscribed days d = (False, d)"
    by (simp add: update_user_subscription_def)
next
  show "1 \<le> TARIFF_CHANNELS_LIMIT" by (simp add: TARIFF_CHANNELS_LIMIT_def)
next
  show "3 \<le> TARIFF_POSTS_PER_DAY" by (simp add: TARIFF_POSTS_PER_DAY_def)
qed


theorem subscription_grant_witness:
  "find (\<lambda>u. u_telegram_id u = 42) (users empty_db) = None
   \<and> fst (get_or_create_user Succeeds 5 42 (Some ''ann'') None empty_db)
       = Some (new_user 1 42 (Some ''ann'') None 5)
   \<and> u_channels_limit (new_user 1 42 (Some ''ann'') None 5) = 1
   \<and> u_posts_per_day_limit (new_user 1 42 (Some ''ann'') None 5) = 3
   \<and> map u_subscribed (users (snd (update_user_subscription Succeeds 10 11 42 True 30 example_db)))
       = [True]
   \<and> map u_subscription_until (users (snd (update_user_subscription Succeeds 10 11 42 True 30 example_db)))
       = [Some 2592000000010]
   \<and> map u_channels_limit (users (snd (update_user_subscription Succeeds 10 11 42 True 30 example_db)))
       = [2]
   \<and> map u_posts_per_day_limit (users (snd (update_user_subscription Succeeds 10 11 42 True 30 example_db)))
       = [8]"
  using subscription_grant [of 42 empty_db 5 "Some ''ann''" None 10 11 True 30]
  by (simp add: empty_db_def example_db_def user1_def get_or_create_user_def new_user_def
        update_user_subscription_def timedelta_days_def TARIFF_CHANNELS_LIMIT_def
        TARIFF_POSTS_PER_DAY_def Let_def)



section \<open>The Delivery Executor: facts\<close>


lemma joined_rows_mem:
  assumes "r \<in> set (joined_rows d wh)"
  shows "jp_post r \<in> set (scheduled_posts d)
       \<and> (\<exists>c \<in> set (channels d). wh (jp_post r) c \<and> c_channel_id c = sp_channel_id (jp_post r)
                                  \<and> c_user_id c = sp_user_id (jp_post r)
                                  \<and> jp_channel_ident r = c_channel_id c)"
proof -
  from assms obtain sp where sp: "sp \<in> set (scheduled_posts d)" "r \<in> set (inner_rows d wh sp)"
    unfolding joined_rows_inner by auto
  from sp(2) obtain u c where "u \<in> set (users d)" "sp_user_id sp = u_id u" "c \<in> set (channels d)"
     "sp_channel_id sp = c_channel_id c" "c_user_id c = u_id u" "wh sp c"
     "r = \<lparr>jp_post = sp, jp_telegram_id = u_telegram_id u, jp_channel_ident = c_channel_id c\<rparr>"
    unfolding inner_rows_def by auto
  with sp(1) show ?thesis by auto
qed



lemma mark_store:
  "snd (mark_post_published Succeeds t pid d)
     = d\<lparr>scheduled_posts := map (\<lambda>sp. if sp_id sp = pid
                                        then sp\<lparr>sp_is_published := True, sp_published_at := Some t\<rparr>
                                        else sp) (scheduled_posts d)\<rparr>"
  by (simp add: mark_post_published_def)




lemma post_message_channel: "channel_sends [post_message post] = [post_message post]"
  by (simp add: channel_sends_def post_message_def split: option.splits)

lemma channel_sends_append: "channel_sends (xs @ ys) = channel_sends xs @ channel_sends ys"
  by (simp add: channel_sends_def)

lemma channel_sends_notify: "channel_sends [Notify i x] = []"
  by (simp add: channel_sends_def)



text \<open>A delivery that finds no post, or that cannot load.\<close>

lemma publish_noop:
  assumes "load_post pid (store w) = None \<or> on_load env = Raises \<or> on_send env = Raises"
  shows "store (publish_scheduled_post env pid w) = store w"
    and "outbox (publish_scheduled_post env pid w) = outbox w"
    and "deliveries q (publish_scheduled_post env pid w) = deliveries q w"
    and "\<exists>l. logged (publish_scheduled_post env pid w) = logged w @ [l]"
  using assms
  by (auto simp: publish_scheduled_post_def deliveries_def split: outcome.splits option.splits)


text \<open>
  Claim C7. When the send to the channel raises, \<^verbatim>\<open>publish_scheduled_post\<close> returns with the
  store as it was (so \<^verbatim>\<open>mark_post_published\<close> has not run and the post is still
  unpublished), nothing sent, and one more log line: the error line of its
  \<^verbatim>\<open>except Exception\<close> when the post had been loaded.
\<close>

theorem delivery_failure_contained:
  assumes "on_send env = Raises"
  shows "store (publish_scheduled_post env pid w) = store w
       \<and> outbox (publish_scheduled_post env pid w) = outbox w
       \<and> (\<exists>l. logged (publish_scheduled_post env pid w) = logged w @ [l])
       \<and> (on_load env = Succeeds \<and> load_post pid (store w) \<noteq> None
            \<longrightarrow> logged (publish_scheduled_post env pid w) = logged w @ [Err_publish pid])"
proof -
  have "on_load env = Succeeds \<and> load_post pid (store w) \<noteq> None
            \<longrightarrow> logged (publish_scheduled_post env pid w) = logged w @ [Err_publish pid]"
    using assms by (auto simp: publish_scheduled_post_def)
  with publish_noop [of pid w env] assms show ?thesis by simp
qed

lemma load_example_2:
  "load_post 2 example_db
     = Some \<lparr>jp_post = post_at 2 ''@news'' ''second'' 1000, jp_telegram_id = 42,
              jp_channel_ident = ''@news''\<rparr>"
  by (simp add: load_post_def joined_rows_def example_db_def post_at_def user1_def
        channel_news_def channel_old_def)

theorem delivery_failure_contained_witness:
  "on_send env_send_fails = Raises
   \<and> load_post 2 (store example_world) \<noteq> None
   \<and> store (publish_scheduled_post env_send_fails 2 example_world) = example_db
   \<and> outbox (publish_scheduled_post env_send_fails 2 example_world) = []
   \<and> logged (publish_scheduled_post env_send_fails 2 example_world) = [Err_publish 2]
   \<and> map sp_is_published (scheduled_posts (store (publish_scheduled_post env_send_fails 2 example_world)))
       = [False, False, False]"
  using delivery_failure_contained [of env_send_fails 2 example_world] load_example_2
  by (simp add: env_send_fails_def env_ok_def example_world_def)
     (simp add: example_db_def post_at_def)





section \<open>The catch-up sweep: facts\<close>

lemma mark_any_store:
  "snd (mark_post_published io t pid d) = d
   \<or> snd (mark_post_published io t pid d) = snd (mark_post_published Succeeds t pid d)"
  by (cases io) (simp_all add: mark_post_published_def)

lemma mark_keeps_other:
  assumes "sp \<in> set (scheduled_posts d)" and "sp_id sp \<noteq> pid"
  shows "sp \<in> set (scheduled_posts (snd (mark_post_published io t pid d)))"
proof (cases io)
  case Succeeds
  let ?f = "\<lambda>sp. if sp_id sp = pid then sp\<lparr>sp_is_published := True, sp_published_at := Some t\<rparr>
                   else sp"
  have "?f sp = sp" using assms(2) by simp
  then have "sp \<in> ?f ` set (scheduled_posts d)"
    using assms(1) by (rule_tac x = sp in rev_image_eqI) simp_all
  then show ?thesis unfolding Succeeds by (simp only: mark_store set_map) simp
next
  case Raises
  with assms(1) show ?thesis by (simp add: mark_post_published_def)
qed

lemma mark_ids:
  "map sp_id (scheduled_posts (snd (mark_post_published io t pid d))) = map sp_id (scheduled_posts d)"
  by (cases io) (simp_all add: mark_post_published_def comp_def)


lemma publish_store:
  "store (publish_scheduled_post env pid w) = store w
   \<or> store (publish_scheduled_post env pid w)
        = snd (mark_post_published (on_mark env) (db_clock env) pid (store w))"
  by (simp add: publish_scheduled_post_def Let_def notify_user_def
        split: outcome.splits option.splits)

lemma publish_keeps_other:
  assumes "sp \<in> set (scheduled_posts (store w))" and "sp_id sp \<noteq> pid"
  shows "sp \<in> set (scheduled_posts (store (publish_scheduled_post env pid w)))"
  using publish_store [of env pid w] mark_keeps_other [OF assms] assms(1) by metis

lemma publish_deliveries_other:
  assumes "q \<noteq> pid"
  shows "deliveries q (publish_scheduled_post env pid w) = deliveries q w"
  using assms
  by (simp add: publish_scheduled_post_def Let_def notify_user_def deliveries_def
        split: outcome.splits option.splits)

lemma sweep_untouched:
  assumes "q \<notin> (\<lambda>r. sp_id (jp_post r)) ` set posts"
  shows "deliveries q (sweep envs k posts w) = deliveries q w
       \<and> (sp \<in> set (scheduled_posts (store w)) \<and> sp_id sp = q
            \<longrightarrow> sp \<in> set (scheduled_posts (store (sweep envs k posts w))))"
  using assms
proof (induction posts arbitrary: k w)
  case Nil
  then show ?case by simp
next
  case (Cons post posts)
  let ?w' = "if sp_id (jp_post post) = 0 then w
             else publish_scheduled_post (envs k) (sp_id (jp_post post)) w"
  from Cons.prems have ne: "q \<noteq> sp_id (jp_post post)"
    and rest: "q \<notin> (\<lambda>r. sp_id (jp_post r)) ` set posts" by auto
  have d: "deliveries q ?w' = deliveries q w"
    using publish_deliveries_other [OF ne] by simp
  have m: "sp \<in> set (scheduled_posts (store w)) \<and> sp_id sp = q
            \<longrightarrow> sp \<in> set (scheduled_posts (store ?w'))"
    using publish_keeps_other ne by auto
  from Cons.IH [OF rest, of "Suc k" ?w'] d m show ?case by simp
qed

text \<open>
  Claim C2, as amended. A post whose channel rows (the rows of its owner with its channel
  id) are all inactive is not among the rows \<^verbatim>\<open>get_posts_to_publish\<close> returns, so the
  catch-up sweep does not send it and leaves its row as it was: an unpublished post stays
  unpublished. (Post ids are unique: \<^verbatim>\<open>id\<close> is the primary key.)
\<close>

theorem inactive_channel_not_swept:
  assumes "distinct (map sp_id (scheduled_posts (store w)))"
      and "sp \<in> set (scheduled_posts (store w))"
      and "\<forall>c \<in> set (channels (store w)).
             c_channel_id c = sp_channel_id sp \<and> c_user_id c = sp_user_id sp \<longrightarrow> \<not> c_is_active c"
  shows "sp_id sp \<notin> (\<lambda>r. sp_id (jp_post r)) ` set (get_posts_to_publish io now (store w))
       \<and> deliveries (sp_id sp) (check_pending_posts io now envs w) = deliveries (sp_id sp) w
       \<and> sp \<in> set (scheduled_posts (store (check_pending_posts io now envs w)))"
proof -
  have notin: "sp_id sp \<notin> (\<lambda>r. sp_id (jp_post r)) ` set (get_posts_to_publish io now (store w))"
  proof
    assume "sp_id sp \<in> (\<lambda>r. sp_id (jp_post r)) ` set (get_posts_to_publish io now (store w))"
    then obtain r where r: "r \<in> set (get_posts_to_publish io now (store w))"
      and id: "sp_id (jp_post r) = sp_id sp" by auto
    from r have "r \<in> set (joined_rows (store w)
                  (\<lambda>sp c. sp_scheduled_time sp \<le> now + timedelta_minutes 5
                          \<and> \<not> sp_is_published sp \<and> c_is_active c))"
      by (cases io) (simp_all add: get_posts_to_publish_def)
    from joined_rows_mem [OF this] obtain c where
      mem: "jp_post r \<in> set (scheduled_posts (store w))" and
      c: "c \<in> set (channels (store w))" "c_is_active c"
         "c_channel_id c = sp_channel_id (jp_post r)" "c_user_id c = sp_user_id (jp_post r)"
      by auto
    from assms(1) have "inj_on sp_id (set (scheduled_posts (store w)))"
      by (simp add: distinct_map)
    with mem assms(2) id have "jp_post r = sp" by (auto dest: inj_onD)
    with c assms(3) show False by auto
  qed
  from sweep_untouched [OF notin, of envs 0 w sp] assms(2) notin show ?thesis
    by (simp add: check_pending_posts_def)
qed

text \<open>
  The claim as stated fails. Post 3 goes to the deactivated channel \<^verbatim>\<open>@old\<close>: the Delivery
  Executor, whose load does not look at \<^verbatim>\<open>is_active\<close>, sends it and marks it published, and
  the scan of due posts, which does, lists posts 2 and 1 only.
\<close>

lemma load_example_3:
  "load_post 3 example_db
     = Some \<lparr>jp_post = post_at 3 ''@old'' ''third'' 500, jp_telegram_id = 42,
              jp_channel_ident = ''@old''\<rparr>"
  by (simp add: load_post_def joined_rows_def example_db_def post_at_def user1_def
        channel_news_def channel_old_def)

theorem inactive_channel_delivered:
  "outbox (publish_scheduled_post env_ok 3 example_world)
     = [Send_message ''@old'' ''third'', Notify 42 ''third'']
   \<and> map sp_is_published (scheduled_posts (store (publish_scheduled_post env_ok 3 example_world)))
     = [False, False, True]
   \<and> map (\<lambda>r. sp_id (jp_post r)) (get_posts_to_publish Succeeds 5000 example_db) = [2, 1]"
proof -
  have w1: "publish_scheduled_post env_ok 3 example_world
         = \<lparr>store = snd (mark_post_published Succeeds 3000 3 example_db),
            outbox = [Send_message ''@old'' ''third'', Notify 42 ''third''],
            logged = [Info_published 3 ''@old'']\<rparr>"
    by (simp add: publish_scheduled_post_def env_ok_def example_world_def
          load_example_3 post_message_def post_at_def notify_user_def)
  have q: "map (\<lambda>r. sp_id (jp_post r)) (get_posts_to_publish Succeeds 5000 example_db) = [2, 1]"
    by (simp add: get_posts_to_publish_def joined_rows_def example_db_def
        post_at_def user1_def channel_news_def channel_old_def timedelta_minutes_def)
  show ?thesis unfolding w1 using q
    by (simp add: mark_post_published_def example_db_def post_at_def)
qed

theorem inactive_channel_not_swept_witness:
  "distinct (map sp_id (scheduled_posts (store example_world)))
   \<and> post_at 3 ''@old'' ''third'' 500 \<in> set (scheduled_posts (store example_world))
   \<and> 3 \<notin> (\<lambda>r. sp_id (jp_post r)) ` set (get_posts_to_publish Succeeds 5000 (store example_world))
   \<and> deliveries 3 (check_pending_posts Succeeds 5000 (\<lambda>k. env_ok) example_world) = 0
   \<and> post_at 3 ''@old'' ''third'' 500
       \<in> set (scheduled_posts (store (check_pending_posts Succeeds 5000 (\<lambda>k. env_ok) example_world)))"
proof -
  have a: "distinct (map sp_id (scheduled_posts (store example_world)))"
    by (simp add: example_world_def example_db_def post_at_def)
  have b: "post_at 3 ''@old'' ''third'' 500 \<in> set (scheduled_posts (store example_world))"
    by (simp add: example_world_def example_db_def)
  have c: "\<forall>c \<in> set (channels (store example_world)).
             c_channel_id c = sp_channel_id (post_at 3 ''@old'' ''third'' 500)
             \<and> c_user_id c = sp_user_id (post_at 3 ''@old'' ''third'' 500) \<longrightarrow> \<not> c_is_active c"
    by (simp add: example_world_def example_db_def post_at_def channel_news_def channel_old_def)
  have i: "sp_id (post_at 3 ''@old'' ''third'' 500) = 3" by (simp add: post_at_def)
  have z: "deliveries 3 example_world = 0" by (simp add: deliveries_def example_world_def)
  note t = inactive_channel_not_swept [OF a b c, of Succeeds 5000 "\<lambda>k. env_ok", unfolded i z]
  from t a b show ?thesis by blast
qed


section \<open>Startup: facts\<close>



























end
